theory Spec2Isabelle
  imports Main "HOL-Library.Sublist" "HOL-Library.Word"
begin

unbundle bit_operations_syntax

section \<open>Bytes and the Python built-ins the helpers use\<close>

text \<open>
  A Python \<open>bytes\<close> value is a list of bytes; \<open>char\<close> is the byte type, so a literal
  such as \<open>'']RESIZE;''\<close> is the byte string \<open>b']RESIZE;'\<close>.
\<close>

type_synonym bytes = string

definition ESC :: char where
  "ESC = CHR 0x1B"

definition BEL :: char where
  "BEL = CHR 0x07"

text \<open>The introducer \<open>b'\x1b]RESIZE;'\<close> (nine bytes).\<close>

definition INTRO :: bytes where
  "INTRO = ESC # '']RESIZE;''"

text \<open>
  \<open>data.index(sub)\<close>: the least index at which \<open>sub\<close> occurs in \<open>data\<close>;
  \<open>None\<close> stands for the \<open>ValueError\<close> Python raises when there is none.
  \<open>sub in data\<close> is \<open>find_sub sub data \<noteq> None\<close>.
\<close>

fun find_sub :: "bytes \<Rightarrow> bytes \<Rightarrow> nat option" where
  "find_sub sub [] = (if sub = [] then Some 0 else None)"
| "find_sub sub (x # xs) =
     (if prefix sub (x # xs) then Some 0 else map_option Suc (find_sub sub xs))"

text \<open>\<open>s.split(sep)\<close> for a one-byte separator: never empty, keeps empty fields.\<close>

fun split_on :: "char \<Rightarrow> bytes \<Rightarrow> bytes list" where
  "split_on sep [] = [[]]"
| "split_on sep (x # xs) =
     (if x = sep then [] # split_on sep xs
      else (case split_on sep xs of
              [] \<Rightarrow> [[x]]
            | p # ps \<Rightarrow> (x # p) # ps))"

text \<open>
  The interpreter's part of the directive decoding, which the repository does not
  contain, is a parameter of the model:
  \<^item> \<open>utf8_ok bs\<close>: \<open>bs.decode()\<close> succeeds (no \<open>UnicodeDecodeError\<close>);
  \<^item> \<open>str_int bs\<close>: the value of \<open>int(s)\<close> for the text \<open>s\<close> that \<open>bs\<close> decodes to,
    \<open>None\<close> for \<open>ValueError\<close>;
  \<^item> \<open>winpty_set_size c r\<close>: what pywinpty's \<open>PTY.set_size\<close> does with the request.
\<close>

datatype exn = StructError | OSError | ValueError | OtherError

record runtime =
  utf8_ok :: "bytes \<Rightarrow> bool"
  str_int :: "bytes \<Rightarrow> int option"
  winpty_set_size :: "int \<Rightarrow> int \<Rightarrow> exn option"

subsection \<open>A concrete interpreter for ASCII input\<close>

definition is_digit :: "char \<Rightarrow> bool" where
  "is_digit c = (let n = (of_char c :: nat) in 48 \<le> n \<and> n \<le> 57)"

definition digit_val :: "char \<Rightarrow> int" where
  "digit_val c = int (of_char c) - 48"

text \<open>The ASCII characters \<open>str.isspace\<close> accepts: 0x09-0x0D, 0x1C-0x20.\<close>

definition is_space :: "char \<Rightarrow> bool" where
  "is_space c = (let n = (of_char c :: nat) in (9 \<le> n \<and> n \<le> 13) \<or> (28 \<le> n \<and> n \<le> 32))"

text \<open>Value of a digit string, most significant digit first.\<close>

fun dec_val :: "int \<Rightarrow> bytes \<Rightarrow> int" where
  "dec_val acc [] = acc"
| "dec_val acc (d # ds) = dec_val (10 * acc + digit_val d) ds"

text \<open>
  The body of an integer literal: digits, with single underscores allowed between
  two digits only. \<open>prev\<close> tells whether the previous character was a digit.
\<close>

fun int_body_ok :: "bool \<Rightarrow> bytes \<Rightarrow> bool" where
  "int_body_ok prev [] = prev"
| "int_body_ok prev (c # cs) =
     (if is_digit c then int_body_ok True cs
      else if c = CHR ''_'' then prev \<and> cs \<noteq> [] \<and> is_digit (hd cs) \<and> int_body_ok False cs
      else False)"

definition strip_space :: "bytes \<Rightarrow> bytes" where
  "strip_space s = rev (dropWhile is_space (rev (dropWhile is_space s)))"

text \<open>
  \<open>int(s)\<close> on ASCII text: surrounding whitespace, one optional sign, a literal body
  of at most 4300 digits (the interpreter's default limit on conversions).
  Text with a byte above 0x7F is rejected here: the Unicode digits and spaces that
  \<open>int\<close> also accepts are outside this instance, which is only ever evaluated on
  ASCII input. Theorems that quantify over every chunk quantify over the runtime too.
\<close>

definition ascii_int :: "bytes \<Rightarrow> int option" where
  "ascii_int s =
     (let t = strip_space s;
          neg = (t \<noteq> [] \<and> hd t = CHR ''-'');
          body = (if t \<noteq> [] \<and> (hd t = CHR ''-'' \<or> hd t = CHR ''+'') then tl t else t);
          ds = filter is_digit body
      in if list_all (\<lambda>c. (of_char c :: nat) < 128) s \<and> int_body_ok False body
            \<and> length ds \<le> 4300
         then Some (if neg then - dec_val 0 ds else dec_val 0 ds)
         else None)"

text \<open>
  The instance used wherever a concrete input is evaluated: decoding succeeds on ASCII
  (valid UTF-8 with bytes above 0x7F is outside it, as above), and pywinpty's
  \<open>set_size\<close> succeeds.
\<close>

definition cpython :: runtime where
  "cpython = \<lparr> utf8_ok = list_all (\<lambda>c. (of_char c :: nat) < 128),
               str_int = ascii_int,
               winpty_set_size = (\<lambda>c r. None) \<rparr>"

section \<open>The PTY device and \<open>set_size\<close>\<close>

text \<open>The kernel's \<open>struct winsize\<close>: four unsigned shorts, rows first.\<close>

record winsize =
  ws_row :: "16 word"
  ws_col :: "16 word"
  ws_xpixel :: "16 word"
  ws_ypixel :: "16 word"

text \<open>The Session's size as the spec writes it: (columns, rows).\<close>

definition size_of :: "winsize \<Rightarrow> int \<times> int" where
  "size_of w = (uint (ws_col w), uint (ws_row w))"

text \<open>
  \<open>struct.pack('HHHH', a, b, c, d)\<close>: each value must fit an unsigned short, else
  \<open>struct.error\<close>, which is neither a \<open>ValueError\<close> nor an \<open>OSError\<close>.
\<close>

definition pack_HHHH :: "int \<Rightarrow> int \<Rightarrow> int \<Rightarrow> int \<Rightarrow> exn + 16 word list" where
  "pack_HHHH a b c d =
     (if list_all (\<lambda>v. 0 \<le> v \<and> v \<le> 65535) [a, b, c, d]
      then Inr (map word_of_int [a, b, c, d])
      else Inl StructError)"

text \<open>
  \<open>set_size(fd, cols, rows)\<close>: packs \<open>rows, cols, 0, 0\<close> and hands the buffer to the
  \<open>TIOCSWINSZ\<close> ioctl, which reads it as a \<open>struct winsize\<close>. \<open>ioctl_ok\<close> is the
  device's answer (\<open>False\<close>: the ioctl raises \<open>OSError\<close>).
\<close>

definition set_size :: "bool \<Rightarrow> int \<Rightarrow> int \<Rightarrow> exn + winsize" where
  "set_size ioctl_ok cols rows =
     (case pack_HHHH rows cols 0 0 of
        Inl e \<Rightarrow> Inl e
      | Inr buf \<Rightarrow>
          if ioctl_ok
          then Inr \<lparr> ws_row = buf ! 0, ws_col = buf ! 1, ws_xpixel = buf ! 2, ws_ypixel = buf ! 3 \<rparr>
          else Inl OSError)"

section \<open>Decoding resize directives (POSIX variants)\<close>

text \<open>
  The three statements \<open>resize_data = payload.decode()\<close>, \<open>c, r = resize_data.split(';')\<close>
  and \<open>int(c), int(r)\<close>; \<open>None\<close> is the \<open>ValueError\<close> any of them may raise.
\<close>

definition parse_pair :: "runtime \<Rightarrow> bytes \<Rightarrow> (int \<times> int) option" where
  "parse_pair rt payload =
     (if utf8_ok rt payload
      then (case split_on CHR '';'' payload of
              [c, r] \<Rightarrow>
                (case str_int rt c of
                   None \<Rightarrow> None
                 | Some cv \<Rightarrow> (case str_int rt r of None \<Rightarrow> None | Some rv \<Rightarrow> Some (cv, rv)))
            | _ \<Rightarrow> None)
      else None)"

lemma find_sub_bound: "find_sub sub xs = Some i \<Longrightarrow> i + length sub \<le> length xs"
proof (induction xs arbitrary: i)
  case Nil
  then show ?case by (simp split: if_splits)
next
  case (Cons x xs)
  show ?case
  proof (cases "prefix sub (x # xs)")
    case True
    with Cons.prems prefix_length_le [of sub "x # xs"] show ?thesis by simp
  next
    case False
    with Cons.prems obtain j where "find_sub sub xs = Some j" "i = Suc j" by auto
    with Cons.IH show ?thesis by fastforce
  qed
qed

text \<open>
  The loop of \<open>scripts/terminal_pty.py\<close>, lines 74-84:
  \<^verbatim>\<open>
  while b'\x1b]RESIZE;' in data:
      start = data.index(b'\x1b]RESIZE;')
      try:
          end = data.index(b'\x07', start)
          resize_data = data[start+9:end].decode()
          c, r = resize_data.split(';')
          set_size(fd, int(c), int(r))
          data = data[:start] + data[end+1:]
      except (ValueError, IndexError):
          break
  \<close>
  The result is the exception that leaves the loop uncaught, with the device as it
  was then, or the residual data and the device.
\<close>

function resize_loop :: "runtime \<Rightarrow> bool \<Rightarrow> bytes \<Rightarrow> winsize \<Rightarrow> (exn \<times> winsize) + (bytes \<times> winsize)" where
  "resize_loop rt ioctl_ok data ws =
     (case find_sub INTRO data of
        None \<Rightarrow> Inr (data, ws)
      | Some start \<Rightarrow>
          (case find_sub [BEL] (drop start data) of
             None \<Rightarrow> Inr (data, ws)
           | Some k \<Rightarrow>
               (case parse_pair rt (take (start + k - (start + 9)) (drop (start + 9) data)) of
                  None \<Rightarrow> Inr (data, ws)
                | Some (c, r) \<Rightarrow>
                    (case set_size ioctl_ok c r of
                       Inl e \<Rightarrow> Inl (e, ws)
                     | Inr ws' \<Rightarrow>
                         resize_loop rt ioctl_ok
                           (take start data @ drop (start + k + 1) data) ws'))))"
  by pat_completeness auto
termination
proof (relation "measure (\<lambda>(rt, ok, data, ws). length data)")
  show "wf (measure (\<lambda>(rt, ok, data, ws). length data))" by simp
next
  fix rt :: runtime and ioctl_ok :: bool and data :: bytes and ws :: winsize
    and start k :: nat
  assume "find_sub INTRO data = Some start" "find_sub [BEL] (drop start data) = Some k"
  then have "start + length INTRO \<le> length data" "k + 1 \<le> length data - start"
    using find_sub_bound [of INTRO data start] find_sub_bound [of "[BEL]" "drop start data" k]
    by simp_all
  then show "((rt, ioctl_ok, take start data @ drop (start + k + 1) data, ws'),
              (rt, ioctl_ok, data, ws)) \<in> measure (\<lambda>(rt, ok, data, ws). length data)" for ws'
    by simp
qed

declare resize_loop.simps [simp del]

text \<open>
  The single attempt of the root \<open>terminal_pty.py\<close>, lines 67-75, made only when the
  chunk starts with the introducer:
  \<^verbatim>\<open>
  if data.startswith(b'\x1b]RESIZE;'):
      try:
          end = data.index(b'\x07')
          resize_data = data[9:end].decode()
          c, r = resize_data.split(';')
          set_size(fd, int(c), int(r))
          data = data[end+1:]
      except (ValueError, IndexError):
          pass
  \<close>
\<close>

definition resize_once :: "runtime \<Rightarrow> bool \<Rightarrow> bytes \<Rightarrow> winsize \<Rightarrow> (exn \<times> winsize) + (bytes \<times> winsize)" where
  "resize_once rt ioctl_ok data ws =
     (if prefix INTRO data
      then (case find_sub [BEL] data of
              None \<Rightarrow> Inr (data, ws)
            | Some e \<Rightarrow>
                (case parse_pair rt (take (e - 9) (drop 9 data)) of
                   None \<Rightarrow> Inr (data, ws)
                 | Some (c, r) \<Rightarrow>
                     (case set_size ioctl_ok c r of
                        Inl x \<Rightarrow> Inl (x, ws)
                      | Inr ws' \<Rightarrow> Inr (drop (e + 1) data, ws'))))
      else Inr (data, ws))"

section \<open>The relay loop (POSIX variants)\<close>

text \<open>
  What the helper can observe and change: the PTY's window size, the bytes it has
  written to the PTY (the shell's input) and to its own standard output, and the
  file-status flags of its standard input.
\<close>

record pstate =
  winsz :: winsize
  to_pty :: bytes
  to_host :: bytes
  stdin_flags :: int

datatype fdname = PtyFd | StdinFd

datatype wstatus = WExited int | WSignaled int

datatype wait_res = StillRunning | Reaped wstatus | NoChild

text \<open>
  The operating system's answers during one pass of the \<open>while\<close> loop:
  \<open>select_res\<close> is \<open>None\<close> for \<open>select.error\<close>, else the ready list; a read is \<open>None\<close>
  for \<open>OSError\<close>, else the chunk (empty at end of file); the three flags tell whether
  writing to standard output, writing to the PTY and the resize ioctl succeed or raise
  \<open>OSError\<close>; \<open>waitpid_res\<close> is the answer of \<open>os.waitpid(pid, os.WNOHANG)\<close>.
  A write that succeeds writes the whole chunk.
\<close>

record iter =
  select_res :: "fdname list option"
  pty_read :: "bytes option"
  stdin_read :: "bytes option"
  stdout_write_ok :: bool
  pty_write_ok :: bool
  ioctl_succeeds :: bool
  waitpid_res :: wait_res

datatype flow = Go | Break

text \<open>The PTY branch of the \<open>for\<close> loop: the same statements in both variants.\<close>

definition pty_branch :: "iter \<Rightarrow> pstate \<Rightarrow> flow \<times> pstate" where
  "pty_branch e st =
     (case pty_read e of
        None \<Rightarrow> (Break, st)
      | Some data \<Rightarrow>
          if data = [] then (Break, st)
          else if stdout_write_ok e then (Go, st\<lparr>to_host := to_host st @ data\<rparr>)
          else (Break, st))"

text \<open>
  The standard-input branch of \<open>scripts/terminal_pty.py\<close>, lines 66-89. An \<open>OSError\<close>
  and an empty read both clear \<open>running\<close> and leave the \<open>for\<close> loop; \<open>struct.error\<close>
  is caught nowhere.
\<close>

definition scripts_stdin :: "runtime \<Rightarrow> iter \<Rightarrow> pstate \<Rightarrow> (exn \<times> pstate) + (flow \<times> pstate)" where
  "scripts_stdin rt e st =
     (case stdin_read e of
        None \<Rightarrow> Inr (Break, st)
      | Some data \<Rightarrow>
          if data = [] then Inr (Break, st)
          else (case resize_loop rt (ioctl_succeeds e) data (winsz st) of
                  Inl (x, ws) \<Rightarrow>
                    if x = OSError then Inr (Break, st\<lparr>winsz := ws\<rparr>)
                    else Inl (x, st\<lparr>winsz := ws\<rparr>)
                | Inr (data', ws) \<Rightarrow>
                    if data' = [] then Inr (Go, st\<lparr>winsz := ws\<rparr>)
                    else if pty_write_ok e
                    then Inr (Go, st\<lparr>winsz := ws, to_pty := to_pty st @ data'\<rparr>)
                    else Inr (Break, st\<lparr>winsz := ws\<rparr>)))"

text \<open>
  The \<open>for ready_fd in rlist\<close> loop of the scripts variant; the flag returned is
  \<open>running\<close>.
\<close>

fun scripts_for :: "runtime \<Rightarrow> iter \<Rightarrow> fdname list \<Rightarrow> pstate \<Rightarrow> (exn \<times> pstate) + (bool \<times> pstate)" where
  "scripts_for rt e [] st = Inr (True, st)"
| "scripts_for rt e (f # fs) st =
     (case (if f = PtyFd then Inr (pty_branch e st) else scripts_stdin rt e st) of
        Inl x \<Rightarrow> Inl x
      | Inr (Break, st') \<Rightarrow> Inr (False, st')
      | Inr (Go, st') \<Rightarrow> scripts_for rt e fs st')"

text \<open>
  How \<open>main\<close> leaves the \<open>try\<close> block: not yet (the trace of answers is used up and
  the loop is still going), by falling out of the loop, by \<open>sys.exit\<close>, or by an
  exception nothing catches.
\<close>

datatype outcome = Running pstate | Returned pstate | SysExit int pstate | Uncaught exn pstate

text \<open>\<open>os.waitstatus_to_exitcode\<close>: the exit code, or minus the signal number.\<close>

fun waitstatus_to_exitcode :: "wstatus \<Rightarrow> int" where
  "waitstatus_to_exitcode (WExited n) = n"
| "waitstatus_to_exitcode (WSignaled s) = - s"

text \<open>The child check that ends every pass of the \<open>while\<close> loop, lines 92-97.\<close>

fun scripts_while :: "runtime \<Rightarrow> iter list \<Rightarrow> pstate \<Rightarrow> outcome" where
  "scripts_while rt [] st = Running st"
| "scripts_while rt (e # es) st =
     (case select_res e of
        None \<Rightarrow> Returned st
      | Some rlist \<Rightarrow>
          (case scripts_for rt e rlist st of
             Inl (x, st') \<Rightarrow> Uncaught x st'
           | Inr (running, st') \<Rightarrow>
               (case waitpid_res e of
                  Reaped s \<Rightarrow> SysExit (waitstatus_to_exitcode s) st'
                | NoChild \<Rightarrow> Returned st'
                | StillRunning \<Rightarrow> if running then scripts_while rt es st' else Returned st')))"

text \<open>
  The standard-input branch of the root \<open>terminal_pty.py\<close>, lines 63-79: an empty read
  does nothing, and \<open>except OSError: pass\<close> goes on with the next descriptor.
\<close>

definition root_stdin :: "runtime \<Rightarrow> iter \<Rightarrow> pstate \<Rightarrow> (exn \<times> pstate) + pstate" where
  "root_stdin rt e st =
     (case stdin_read e of
        None \<Rightarrow> Inr st
      | Some data \<Rightarrow>
          if data = [] then Inr st
          else (case resize_once rt (ioctl_succeeds e) data (winsz st) of
                  Inl (x, ws) \<Rightarrow>
                    if x = OSError then Inr (st\<lparr>winsz := ws\<rparr>)
                    else Inl (x, st\<lparr>winsz := ws\<rparr>)
                | Inr (data', ws) \<Rightarrow>
                    if data' = [] then Inr (st\<lparr>winsz := ws\<rparr>)
                    else if pty_write_ok e
                    then Inr (st\<lparr>winsz := ws, to_pty := to_pty st @ data'\<rparr>)
                    else Inr (st\<lparr>winsz := ws\<rparr>)))"

text \<open>The \<open>for\<close> loop of the root variant: its \<open>break\<close> leaves this loop only.\<close>

fun root_for :: "runtime \<Rightarrow> iter \<Rightarrow> fdname list \<Rightarrow> pstate \<Rightarrow> (exn \<times> pstate) + pstate" where
  "root_for rt e [] st = Inr st"
| "root_for rt e (f # fs) st =
     (if f = PtyFd
      then (case pty_branch e st of
              (Break, st') \<Rightarrow> Inr st'
            | (Go, st') \<Rightarrow> root_for rt e fs st')
      else (case root_stdin rt e st of
              Inl x \<Rightarrow> Inl x
            | Inr st' \<Rightarrow> root_for rt e fs st'))"

text \<open>The \<open>while True\<close> loop of the root variant, lines 46-87.\<close>

fun root_while :: "runtime \<Rightarrow> iter list \<Rightarrow> pstate \<Rightarrow> outcome" where
  "root_while rt [] st = Running st"
| "root_while rt (e # es) st =
     (case select_res e of
        None \<Rightarrow> Returned st
      | Some rlist \<Rightarrow>
          (case root_for rt e rlist st of
             Inl (x, st') \<Rightarrow> Uncaught x st'
           | Inr st' \<Rightarrow>
               (case waitpid_res e of
                  Reaped s \<Rightarrow> SysExit (waitstatus_to_exitcode s) st'
                | NoChild \<Rightarrow> Returned st'
                | StillRunning \<Rightarrow> root_while rt es st')))"

text \<open>
  \<open>os.O_NONBLOCK\<close> (the Linux value; no theorem depends on it) and the \<open>finally\<close>
  clause, which runs on every way out of the \<open>try\<close> block.
\<close>

definition O_NONBLOCK :: int where
  "O_NONBLOCK = 2048"

fun finally_restore :: "int \<Rightarrow> outcome \<Rightarrow> outcome" where
  "finally_restore old (Running st) = Running st"
| "finally_restore old (Returned st) = Returned (st\<lparr>stdin_flags := old\<rparr>)"
| "finally_restore old (SysExit n st) = SysExit n (st\<lparr>stdin_flags := old\<rparr>)"
| "finally_restore old (Uncaught x st) = Uncaught x (st\<lparr>stdin_flags := old\<rparr>)"

text \<open>
  \<open>main\<close> from the parsed arguments on (line 37 onwards): the first \<open>set_size\<close>, the
  switch of standard input to non-blocking mode, the loop, the \<open>finally\<close> clause.
  \<open>ws0\<close> is the size the new PTY comes with, \<open>ioctl0\<close> the answer to the first ioctl,
  \<open>old_flags\<close> the answer to \<open>F_GETFL\<close>. The three \<open>fcntl\<close> calls on standard input
  are taken to succeed.
\<close>

definition start_state :: "winsize \<Rightarrow> int \<Rightarrow> pstate" where
  "start_state ws flags = \<lparr> winsz = ws, to_pty = [], to_host = [], stdin_flags = flags \<rparr>"

definition main_with ::
  "(iter list \<Rightarrow> pstate \<Rightarrow> outcome) \<Rightarrow> int \<Rightarrow> int \<Rightarrow> winsize \<Rightarrow> bool \<Rightarrow> int \<Rightarrow> iter list \<Rightarrow> outcome" where
  "main_with loop cols rows ws0 ioctl0 old_flags trace =
     (case set_size ioctl0 cols rows of
        Inl x \<Rightarrow> Uncaught x (start_state ws0 old_flags)
      | Inr ws \<Rightarrow>
          finally_restore old_flags (loop trace (start_state ws (old_flags OR O_NONBLOCK))))"

definition main_scripts :: "runtime \<Rightarrow> int \<Rightarrow> int \<Rightarrow> winsize \<Rightarrow> bool \<Rightarrow> int \<Rightarrow> iter list \<Rightarrow> outcome" where
  "main_scripts rt = main_with (scripts_while rt)"

definition main_root :: "runtime \<Rightarrow> int \<Rightarrow> int \<Rightarrow> winsize \<Rightarrow> bool \<Rightarrow> int \<Rightarrow> iter list \<Rightarrow> outcome" where
  "main_root rt = main_with (root_while rt)"

text \<open>
  The helper's exit status: 0 when \<open>main\<close> returns, the low byte of the argument of
  \<open>sys.exit\<close>, 1 after an uncaught exception; none while the loop is running.
\<close>

fun exit_status :: "outcome \<Rightarrow> int option" where
  "exit_status (Running st) = None"
| "exit_status (Returned st) = Some 0"
| "exit_status (SysExit n st) = Some (n mod 256)"
| "exit_status (Uncaught x st) = Some 1"

fun final_state :: "outcome \<Rightarrow> pstate" where
  "final_state (Running st) = st"
| "final_state (Returned st) = st"
| "final_state (SysExit n st) = st"
| "final_state (Uncaught x st) = st"

section \<open>The Windows variant\<close>

subsection \<open>Filtering the PTY's output\<close>









subsection \<open>Relaying standard input\<close>

text \<open>
  \<open>bs.decode('utf-8', errors='replace')\<close> as a list of code points: every maximal
  ill-formed part becomes U+FFFD.
\<close>

definition is_cont :: "nat \<Rightarrow> bool" where
  "is_cont n = (128 \<le> n \<and> n \<le> 191)"

fun decode_replace :: "bytes \<Rightarrow> nat list" where
  "decode_replace [] = []"
| "decode_replace (b # bs) =
     (let n = (of_char b :: nat) in
      if n < 128 then n # decode_replace bs
      else if 194 \<le> n \<and> n \<le> 223 then
        (case bs of
           [] \<Rightarrow> [65533]
         | c1 # r1 \<Rightarrow>
             if is_cont (of_char c1) then ((n - 192) * 64 + (of_char c1 - 128)) # decode_replace r1
             else 65533 # decode_replace bs)
      else if 224 \<le> n \<and> n \<le> 239 then
        (case bs of
           [] \<Rightarrow> [65533]
         | c1 # r1 \<Rightarrow>
             if (if n = 224 then 160 else 128) \<le> (of_char c1 :: nat)
                \<and> (of_char c1 :: nat) \<le> (if n = 237 then 159 else 191)
             then (case r1 of
                     [] \<Rightarrow> [65533]
                   | c2 # r2 \<Rightarrow>
                       if is_cont (of_char c2)
                       then ((n - 224) * 4096 + (of_char c1 - 128) * 64 + (of_char c2 - 128))
                              # decode_replace r2
                       else 65533 # decode_replace r1)
             else 65533 # decode_replace bs)
      else if 240 \<le> n \<and> n \<le> 244 then
        (case bs of
           [] \<Rightarrow> [65533]
         | c1 # r1 \<Rightarrow>
             if (if n = 240 then 144 else 128) \<le> (of_char c1 :: nat)
                \<and> (of_char c1 :: nat) \<le> (if n = 244 then 143 else 191)
             then (case r1 of
                     [] \<Rightarrow> [65533]
                   | c2 # r2 \<Rightarrow>
                       if is_cont (of_char c2)
                       then (case r2 of
                               [] \<Rightarrow> [65533]
                             | c3 # r3 \<Rightarrow>
                                 if is_cont (of_char c3)
                                 then ((n - 240) * 262144 + (of_char c1 - 128) * 4096
                                         + (of_char c2 - 128) * 64 + (of_char c3 - 128))
                                        # decode_replace r3
                                 else 65533 # decode_replace r2)
                       else 65533 # decode_replace r1)
             else 65533 # decode_replace bs)
      else 65533 # decode_replace bs)"

text \<open>
  The Session of the Windows variant: its size (columns, rows) and the text written to
  the PTY, as code points (pywinpty takes \<open>str\<close>).
\<close>

record wstate =
  wsize :: "int \<times> int"
  w_to_pty :: "nat list"

text \<open>
  The environment of the main loop: whether \<open>running and pty.isalive()\<close> holds when the
  loop condition is evaluated for the \<open>k\<close>-th time, whether the \<open>pty.write\<close> of that pass
  succeeds, whether \<open>PTY(cols, rows)\<close> and \<open>pty.spawn(shell)\<close> succeed, and the exit
  status pywinpty would report for the shell, which the helper never asks for.
\<close>

record wenv =
  alive :: "nat \<Rightarrow> bool"
  write_ok :: "nat \<Rightarrow> bool"
  spawn_ok :: bool
  child_exitstatus :: "int option"

text \<open>
  Lines 67-72: reading up to the terminator. Standard input is the list of bytes still
  to come, followed by end of file; at end of file \<open>read(1)\<close> returns \<open>b''\<close>, which is not
  the terminator, and the loop goes round with nothing changed. Not returning is \<open>None\<close>.
  \<^verbatim>\<open>
  resize_data = b''
  while True:
      c = sys.stdin.buffer.read(1)
      if c == b'\x07':
          break
      resize_data += c
  \<close>
\<close>

partial_function (option) read_payload :: "bytes \<Rightarrow> bytes \<Rightarrow> (bytes \<times> bytes) option" where
  "read_payload resize_data inp =
     (case inp of
        [] \<Rightarrow> read_payload (resize_data @ []) []
      | c # cs \<Rightarrow> if c = BEL then Some (resize_data, cs) else read_payload (resize_data @ [c]) cs)"

definition strip_char :: "char \<Rightarrow> bytes \<Rightarrow> bytes" where
  "strip_char c s = rev (dropWhile (\<lambda>x. x = c) (rev (dropWhile (\<lambda>x. x = c) s)))"

text \<open>
  Lines 74-80: \<open>decode\<close> is outside the inner \<open>try\<close>, so a \<open>UnicodeDecodeError\<close> reaches
  \<open>except Exception: break\<close>, as does any error of \<open>pty.set_size\<close> other than
  \<open>ValueError\<close>.
\<close>

definition win_apply :: "runtime \<Rightarrow> bytes \<Rightarrow> wstate \<Rightarrow> flow \<times> wstate" where
  "win_apply rt resize_data st =
     (if utf8_ok rt resize_data
      then (case split_on CHR '';'' (strip_char CHR '';'' resize_data) of
              [p0, p1] \<Rightarrow>
                (case str_int rt p0 of
                   None \<Rightarrow> (Go, st)
                 | Some c \<Rightarrow>
                     (case str_int rt p1 of
                        None \<Rightarrow> (Go, st)
                      | Some r \<Rightarrow>
                          (case winpty_set_size rt c r of
                             None \<Rightarrow> (Go, st\<lparr>wsize := (c, r)\<rparr>)
                           | Some x \<Rightarrow> if x = ValueError then (Go, st) else (Break, st))))
            | _ \<Rightarrow> (Go, st))
      else (Break, st))"

text \<open>The main loop, lines 57-86; the result is the Session when the loop is left.\<close>

partial_function (option) win_loop :: "runtime \<Rightarrow> wenv \<Rightarrow> nat \<Rightarrow> bytes \<Rightarrow> wstate \<Rightarrow> wstate option" where
  "win_loop rt env k inp st =
     (if alive env k
      then (case inp of
              [] \<Rightarrow> Some st
            | d # rest \<Rightarrow>
                if d = ESC
                then (if take 7 rest = '']RESIZE''
                      then (case read_payload [] (drop 7 rest) of
                              None \<Rightarrow> None
                            | Some (resize_data, rest') \<Rightarrow>
                                (case win_apply rt resize_data st of
                                   (Break, st') \<Rightarrow> Some st'
                                 | (Go, st') \<Rightarrow> win_loop rt env (Suc k) rest' st'))
                      else if write_ok env k
                      then win_loop rt env (Suc k) (drop 7 rest)
                             (st\<lparr>w_to_pty := w_to_pty st @ decode_replace (d # take 7 rest)\<rparr>)
                      else Some st)
                else if write_ok env k
                then win_loop rt env (Suc k) rest (st\<lparr>w_to_pty := w_to_pty st @ decode_replace [d]\<rparr>)
                else Some st)
      else Some st)"

text \<open>
  \<open>main\<close> from line 29 on: the exit status and the Session. Every way out of the loop
  reaches \<open>sys.exit(0)\<close>; a failure to create the PTY or to spawn the shell reaches
  \<open>sys.exit(1)\<close>.
\<close>

definition win_main :: "runtime \<Rightarrow> wenv \<Rightarrow> int \<Rightarrow> int \<Rightarrow> bytes \<Rightarrow> (int \<times> wstate) option" where
  "win_main rt env cols rows inp =
     (if spawn_ok env
      then map_option (\<lambda>st. (0, st)) (win_loop rt env 0 inp \<lparr> wsize = (cols, rows), w_to_pty = [] \<rparr>)
      else Some (1, \<lparr> wsize = (cols, rows), w_to_pty = [] \<rparr>))"

declare read_payload.simps [code]

declare win_loop.simps [code]

section \<open>Concrete passes and environments\<close>

text \<open>
  A pass of the loop in which only standard input is ready and delivers \<open>chunk\<close>, every
  write and ioctl succeeds, and the child is still running.
\<close>

definition stdin_pass :: "bytes \<Rightarrow> iter" where
  "stdin_pass chunk =
     \<lparr> select_res = Some [StdinFd], pty_read = None, stdin_read = Some chunk,
       stdout_write_ok = True, pty_write_ok = True, ioctl_succeeds = True,
       waitpid_res = StillRunning \<rparr>"

text \<open>A pass in which nothing is ready and \<open>waitpid\<close> reports the child's end.\<close>

definition reap_pass :: "wstatus \<Rightarrow> iter" where
  "reap_pass s =
     \<lparr> select_res = Some [], pty_read = None, stdin_read = None,
       stdout_write_ok = True, pty_write_ok = True, ioctl_succeeds = True,
       waitpid_res = Reaped s \<rparr>"

text \<open>The PTY as \<open>pty.fork\<close> returns it: no size yet.\<close>

definition ws_zero :: winsize where
  "ws_zero = \<lparr> ws_row = 0, ws_col = 0, ws_xpixel = 0, ws_ypixel = 0 \<rparr>"

text \<open>
  A Windows environment in which the shell is gone when the loop condition is first
  evaluated, with the exit status \<open>n\<close>; and one in which it lives on.
\<close>

definition shell_gone :: "int \<Rightarrow> wenv" where
  "shell_gone n = \<lparr> alive = (\<lambda>k. False), write_ok = (\<lambda>k. True), spawn_ok = True, child_exitstatus = Some n \<rparr>"

definition shell_alive :: wenv where
  "shell_alive = \<lparr> alive = (\<lambda>k. True), write_ok = (\<lambda>k. True), spawn_ok = True, child_exitstatus = None \<rparr>"

text \<open>Recognisers for the ways a run or a \<open>waitpid\<close> call can end.\<close>

fun is_uncaught :: "outcome \<Rightarrow> bool" where
  "is_uncaught (Uncaught x st) = True"
| "is_uncaught out = False"

fun is_reaped :: "wait_res \<Rightarrow> bool" where
  "is_reaped (Reaped s) = True"
| "is_reaped w = False"

section \<open>Well-formed input\<close>

text \<open>
  The directive of the wire format with the two fields \<open>c\<close> and \<open>r\<close>, and chunks
  described as a sequence of segments: plain bytes, or a directive given by its fields.
\<close>

definition directive :: "bytes \<Rightarrow> bytes \<Rightarrow> bytes" where
  "directive c r = INTRO @ c @ CHR '';'' # r @ [BEL]"









text \<open>A Session of 80 columns and 24 rows with nothing relayed yet.\<close>

definition sess0 :: pstate where
  "sess0 = start_state \<lparr> ws_row = 24, ws_col = 80, ws_xpixel = 0, ws_ypixel = 0 \<rparr> 2"


section \<open>Nuisance sequences in the PTY's output\<close>




section \<open>Properties of the loops\<close>

subsection \<open>Composition of traces\<close>

lemma exit_status_finally: "exit_status (finally_restore old out) = exit_status out"
  by (cases out) simp_all

lemma scripts_while_append:
  "scripts_while rt (tr @ tr') st =
     (case scripts_while rt tr st of Running st' \<Rightarrow> scripts_while rt tr' st' | out \<Rightarrow> out)"
  by (induction tr arbitrary: st) (auto split: option.splits sum.splits wait_res.splits prod.splits)

lemma root_while_append:
  "root_while rt (tr @ tr') st =
     (case root_while rt tr st of Running st' \<Rightarrow> root_while rt tr' st' | out \<Rightarrow> out)"
  by (induction tr arbitrary: st) (auto split: option.splits sum.splits wait_res.splits prod.splits)

lemma main_with_running:
  assumes "exit_status (main_with loop c0 r0 ws0 io0 old tr) = None"
  obtains ws st where "set_size io0 c0 r0 = Inr ws"
    and "loop tr (start_state ws (old OR O_NONBLOCK)) = Running st"
    and "main_with loop c0 r0 ws0 io0 old tr = Running st"
proof (cases "set_size io0 c0 r0")
  case (Inl x)
  with assms show ?thesis by (simp add: main_with_def)
next
  case (Inr ws)
  with assms have "exit_status (loop tr (start_state ws (old OR O_NONBLOCK))) = None"
    by (simp add: main_with_def exit_status_finally)
  then obtain st where "loop tr (start_state ws (old OR O_NONBLOCK)) = Running st"
    by (cases "loop tr (start_state ws (old OR O_NONBLOCK))") simp_all
  with Inr that show ?thesis by (simp add: main_with_def)
qed

lemma is_uncaught_finally: "is_uncaught (finally_restore old out) = is_uncaught out"
  by (cases out) simp_all

subsection \<open>The Windows payload loop needs its terminator\<close>

lemma read_payload_needs_BEL:
  assumes "read_payload acc inp = Some y"
  shows "BEL \<in> set inp"
proof (rule read_payload.raw_induct [where P = "\<lambda>acc inp y. BEL \<in> set inp", OF _ assms])
  fix rp :: "bytes \<Rightarrow> bytes \<Rightarrow> (bytes \<times> bytes) option" and a i r
  assume ih: "\<And>a i r. rp a i = Some r \<Longrightarrow> BEL \<in> set i"
    and step: "(case i of [] \<Rightarrow> rp (a @ []) []
                | c # cs \<Rightarrow> if c = BEL then Some (a, cs) else rp (a @ [c]) cs) = Some r"
  show "BEL \<in> set i"
  proof (cases i)
    case Nil
    with step ih [of "a @ []" "[]" r] show ?thesis by simp
  next
    case (Cons c cs)
    with step ih [of "a @ [c]" cs r] show ?thesis by (cases "c = BEL") simp_all
  qed
qed

lemma read_payload_no_BEL: "BEL \<notin> set inp \<Longrightarrow> read_payload acc inp = None"
  using read_payload_needs_BEL by (cases "read_payload acc inp") auto

subsection \<open>End of file on standard input\<close>

lemma root_spins_on_eof: "root_while rt (replicate n (stdin_pass [])) st = Running st"
  by (induction n) (simp_all add: stdin_pass_def root_stdin_def)

lemma scripts_stops_on_eof:
  assumes "stdin_read e = Some []" and "select_res e = Some rl" and "StdinFd \<in> set rl"
  shows "\<exists>st'. scripts_for rt e rl st = Inr (False, st')"
  using assms(3)
proof (induction rl arbitrary: st)
  case Nil
  then show ?case by simp
next
  case (Cons f fs)
  show ?case
  proof (cases f)
    case PtyFd
    with Cons show ?thesis
      by (cases "pty_branch e st") (auto split: flow.splits)
  next
    case StdinFd
    with assms(1) show ?thesis by (simp add: scripts_stdin_def)
  qed
qed


subsection \<open>The loops leave the flags of standard input alone\<close>

lemma pty_branch_flags: "pty_branch e st = (fl, st') \<Longrightarrow> stdin_flags st' = stdin_flags st"
  by (auto simp: pty_branch_def split: option.splits if_splits)

lemma scripts_stdin_flags:
  "(case scripts_stdin rt e st of
      Inl (x, st') \<Rightarrow> stdin_flags st' = stdin_flags st
    | Inr (fl, st') \<Rightarrow> stdin_flags st' = stdin_flags st)"
  by (simp add: scripts_stdin_def split: option.splits sum.splits prod.splits)

lemma scripts_for_flags:
  "(case scripts_for rt e rl st of
      Inl (x, st') \<Rightarrow> stdin_flags st' = stdin_flags st
    | Inr (b, st') \<Rightarrow> stdin_flags st' = stdin_flags st)"
proof (induction rl arbitrary: st)
  case Nil
  show ?case by simp
next
  case (Cons f fs)
  show ?case
  proof (cases f)
    case PtyFd
    obtain fl st1 where pb: "pty_branch e st = (fl, st1)" by (cases "pty_branch e st")
    then have "stdin_flags st1 = stdin_flags st" by (rule pty_branch_flags)
    with Cons.IH [of st1] pb PtyFd show ?thesis
      by (cases fl) (simp_all split: sum.splits prod.splits)
  next
    case StdinFd
    show ?thesis
    proof (cases "scripts_stdin rt e st")
      case (Inl a)
      with scripts_stdin_flags [where rt=rt and e=e and st=st] StdinFd show ?thesis
        by (simp split: prod.splits)
    next
      case (Inr b)
      obtain fl st1 where b: "b = (fl, st1)" by (cases b)
      with Inr scripts_stdin_flags [where rt=rt and e=e and st=st] have "stdin_flags st1 = stdin_flags st" by simp
      with Cons.IH [of st1] Inr b StdinFd show ?thesis
        by (cases fl) (simp_all split: sum.splits prod.splits)
    qed
  qed
qed

lemma scripts_while_flags: "stdin_flags (final_state (scripts_while rt tr st)) = stdin_flags st"
proof (induction tr arbitrary: st)
  case Nil
  show ?case by simp
next
  case (Cons e es)
  show ?case
  proof (cases "select_res e")
    case None
    then show ?thesis by simp
  next
    case (Some rl)
    show ?thesis
    proof (cases "scripts_for rt e rl st")
      case (Inl a)
      with Some scripts_for_flags [where rt=rt and e=e and rl=rl and st=st] show ?thesis
        by (simp split: prod.splits)
    next
      case (Inr b)
      obtain running st1 where b: "b = (running, st1)" by (cases b)
      with Inr scripts_for_flags [where rt=rt and e=e and rl=rl and st=st] have "stdin_flags st1 = stdin_flags st" by simp
      with Cons.IH [of st1] Inr b Some show ?thesis
        by (simp split: wait_res.splits)
    qed
  qed
qed

lemma root_stdin_flags:
  "(case root_stdin rt e st of
      Inl (x, st') \<Rightarrow> stdin_flags st' = stdin_flags st
    | Inr st' \<Rightarrow> stdin_flags st' = stdin_flags st)"
  by (simp add: root_stdin_def split: option.splits sum.splits prod.splits)

lemma root_for_flags:
  "(case root_for rt e rl st of
      Inl (x, st') \<Rightarrow> stdin_flags st' = stdin_flags st
    | Inr st' \<Rightarrow> stdin_flags st' = stdin_flags st)"
proof (induction rl arbitrary: st)
  case Nil
  show ?case by simp
next
  case (Cons f fs)
  show ?case
  proof (cases f)
    case PtyFd
    obtain fl st1 where pb: "pty_branch e st = (fl, st1)" by (cases "pty_branch e st")
    then have "stdin_flags st1 = stdin_flags st" by (rule pty_branch_flags)
    with Cons.IH [of st1] pb PtyFd show ?thesis
      by (cases fl) (simp_all split: sum.splits prod.splits)
  next
    case StdinFd
    show ?thesis
    proof (cases "root_stdin rt e st")
      case (Inl a)
      with root_stdin_flags [where rt=rt and e=e and st=st] StdinFd show ?thesis
        by (simp split: prod.splits)
    next
      case (Inr st1)
      with root_stdin_flags [where rt=rt and e=e and st=st] have "stdin_flags st1 = stdin_flags st" by simp
      with Cons.IH [of st1] Inr StdinFd show ?thesis
        by (simp split: sum.splits prod.splits)
    qed
  qed
qed

lemma root_while_flags: "stdin_flags (final_state (root_while rt tr st)) = stdin_flags st"
proof (induction tr arbitrary: st)
  case Nil
  show ?case by simp
next
  case (Cons e es)
  show ?case
  proof (cases "select_res e")
    case None
    then show ?thesis by simp
  next
    case (Some rl)
    show ?thesis
    proof (cases "root_for rt e rl st")
      case (Inl a)
      with Some root_for_flags [where rt=rt and e=e and rl=rl and st=st] show ?thesis
        by (simp split: prod.splits)
    next
      case (Inr st1)
      with root_for_flags [where rt=rt and e=e and rl=rl and st=st] have "stdin_flags st1 = stdin_flags st" by simp
      with Cons.IH [of st1] Inr Some show ?thesis
        by (simp split: wait_res.splits)
    qed
  qed
qed

lemma main_with_flags:
  assumes "\<And>st. stdin_flags (final_state (loop tr st)) = stdin_flags st"
  shows "stdin_flags (final_state (main_with loop c0 r0 ws0 io0 old tr)) =
           (if exit_status (main_with loop c0 r0 ws0 io0 old tr) = None
            then old OR O_NONBLOCK else old)"
proof (cases "set_size io0 c0 r0")
  case (Inl x)
  then show ?thesis by (simp add: main_with_def start_state_def)
next
  case (Inr ws)
  from assms [of "start_state ws (old OR O_NONBLOCK)"] Inr show ?thesis
    by (cases "loop tr (start_state ws (old OR O_NONBLOCK))")
       (simp_all add: main_with_def start_state_def)
qed

subsection \<open>Locating and decoding a directive\<close>

lemma length_INTRO [simp]: "length INTRO = 9"
  by (simp add: INTRO_def)

lemma BEL_notin_INTRO [simp]: "BEL \<notin> set INTRO"
  by (simp add: INTRO_def BEL_def ESC_def)

lemma find_sub_skip:
  "x \<notin> set pre \<Longrightarrow> find_sub (x # s) (pre @ ys) = map_option (\<lambda>i. length pre + i) (find_sub (x # s) ys)"
proof (induction pre)
  case Nil
  show ?case by (simp add: option.map_ident)
next
  case (Cons a pre)
  then have "\<not> prefix (x # s) (a # pre @ ys)" by auto
  with Cons show ?case by (simp add: option.map_comp comp_def)
qed

lemma find_sub_absent: "x \<notin> set ys \<Longrightarrow> find_sub (x # s) ys = None"
  by (induction ys) auto

lemma find_sub_here: "find_sub sub (sub @ ys) = Some 0"
proof (cases "sub @ ys")
  case Nil
  then show ?thesis by simp
next
  case (Cons a l)
  have "prefix sub (sub @ ys)" by simp
  with Cons show ?thesis by simp
qed

lemma find_INTRO:
  assumes "ESC \<notin> set pre"
  shows "find_sub INTRO (pre @ INTRO @ ys) = Some (length pre)"
proof -
  have "find_sub (ESC # '']RESIZE;'') (pre @ (ESC # '']RESIZE;'') @ ys)
          = map_option (\<lambda>i. length pre + i) (find_sub (ESC # '']RESIZE;'') ((ESC # '']RESIZE;'') @ ys))"
    using assms by (rule find_sub_skip)
  also have "find_sub (ESC # '']RESIZE;'') ((ESC # '']RESIZE;'') @ ys) = Some 0"
    by (rule find_sub_here)
  finally show ?thesis by (simp add: INTRO_def)
qed


lemma find_BEL:
  assumes "BEL \<notin> set payload"
  shows "find_sub [BEL] (INTRO @ payload @ BEL # rest) = Some (9 + length payload)"
proof -
  have "find_sub [BEL] ((INTRO @ payload) @ BEL # rest)
          = map_option (\<lambda>i. length (INTRO @ payload) + i) (find_sub [BEL] (BEL # rest))"
    by (rule find_sub_skip) (use assms in simp)
  then show ?thesis by simp
qed


lemma resize_loop_at_directive:
  assumes "ESC \<notin> set pre" and "BEL \<notin> set payload"
  shows "resize_loop rt ok (pre @ INTRO @ payload @ BEL # rest) ws =
           (case parse_pair rt payload of
              None \<Rightarrow> Inr (pre @ INTRO @ payload @ BEL # rest, ws)
            | Some (c, r) \<Rightarrow>
                (case set_size ok c r of
                   Inl e \<Rightarrow> Inl (e, ws)
                 | Inr ws' \<Rightarrow> resize_loop rt ok (pre @ rest) ws'))"
proof -
  have s: "find_sub INTRO (pre @ INTRO @ payload @ BEL # rest) = Some (length pre)"
    using assms(1) by (rule find_INTRO)
  have k: "find_sub [BEL] (INTRO @ payload @ BEL # rest) = Some (9 + length payload)"
    using assms(2) by (rule find_BEL)
  show ?thesis
    by (subst resize_loop.simps) (simp add: s k split: option.splits sum.splits)
qed

lemma resize_loop_unterminated:
  assumes "ESC \<notin> set pre" and "BEL \<notin> set rest"
  shows "resize_loop rt ok (pre @ INTRO @ rest) ws = Inr (pre @ INTRO @ rest, ws)"
proof -
  have s: "find_sub INTRO (pre @ INTRO @ rest) = Some (length pre)"
    using assms(1) by (rule find_INTRO)
  have k: "find_sub [BEL] (INTRO @ rest) = None"
    using assms(2) by (intro find_sub_absent) simp
  show ?thesis
    by (subst resize_loop.simps) (simp add: s k)
qed

lemma split_on_no_sep: "sep \<notin> set s \<Longrightarrow> split_on sep s = [s]"
  by (induction s) auto

lemma split_on_first: "sep \<notin> set c \<Longrightarrow> split_on sep (c @ sep # r) = c # split_on sep r"
  by (induction c) auto














lemma resize_once_directive:
  assumes "BEL \<notin> set payload"
  shows "resize_once rt ok (INTRO @ payload @ BEL # rest) ws =
           (case parse_pair rt payload of
              None \<Rightarrow> Inr (INTRO @ payload @ BEL # rest, ws)
            | Some (c, r) \<Rightarrow>
                (case set_size ok c r of
                   Inl e \<Rightarrow> Inl (e, ws)
                 | Inr ws' \<Rightarrow> Inr (rest, ws')))"
  by (simp add: resize_once_def find_BEL [OF assms] split: option.splits sum.splits)



subsection \<open>Chunks of segments, pass after pass\<close>






subsection \<open>Fields that are not numbers\<close>

lemma parse_pair_non_numeric:
  assumes "CHR '';'' \<notin> set c" and "CHR '';'' \<notin> set r"
    and "str_int rt c = None \<or> str_int rt r = None"
  shows "parse_pair rt (c @ CHR '';'' # r) = None"
  using assms by (auto simp: parse_pair_def split_on_first split_on_no_sep split: option.splits)

lemma dropWhile_absent: "x \<notin> set s \<Longrightarrow> dropWhile (\<lambda>y. y = x) s = s"
  by (induction s) auto

lemma strip_char_payload:
  assumes "x \<notin> set c" and "x \<notin> set r"
  shows "strip_char x (x # c @ x # r) = (if c = [] then r else if r = [] then c else c @ x # r)"
proof (cases "c = []")
  case True
  with assms show ?thesis by (simp add: strip_char_def dropWhile_absent)
next
  case False
  with assms have "hd c \<noteq> x" by (metis hd_in_set)
  with False have d1: "dropWhile (\<lambda>y. y = x) (c @ x # r) = c @ x # r"
    by (cases c) simp_all
  show ?thesis
  proof (cases "r = []")
    case True
    from assms(1) have "dropWhile (\<lambda>y. y = x) (rev c) = rev c" by (simp add: dropWhile_absent)
    with True False d1 show ?thesis by (simp add: strip_char_def)
  next
    case r: False
    with assms have "last r \<noteq> x" by (metis last_in_set)
    with r have "dropWhile (\<lambda>y. y = x) (rev r @ x # rev c) = rev r @ x # rev c"
      by (cases r rule: rev_cases) simp_all
    with r False d1 show ?thesis by (simp add: strip_char_def)
  qed
qed

lemma win_apply_non_numeric:
  assumes "CHR '';'' \<notin> set c" and "CHR '';'' \<notin> set r"
    and "str_int rt c = None \<or> str_int rt r = None"
    and "utf8_ok rt (CHR '';'' # c @ CHR '';'' # r)"
  shows "win_apply rt (CHR '';'' # c @ CHR '';'' # r) st = (Go, st)"
  using assms
  by (auto simp: win_apply_def strip_char_payload split_on_first split_on_no_sep split: option.splits)

subsection \<open>What reaches the PTY is a subsequence of the chunk\<close>







lemma decode_replace_ascii1: "(of_char c :: nat) < 128 \<Longrightarrow> decode_replace [c] = [of_char c]"
  by simp


subsection \<open>The output filter only cuts out nuisance sequences\<close>















subsection \<open>Without an introducer the size stays\<close>








subsection \<open>Exit statuses\<close>

lemma scripts_no_reap:
  "list_all (\<lambda>e. \<not> is_reaped (waitpid_res e)) tr \<Longrightarrow> scripts_while rt tr st \<noteq> SysExit n st'"
proof (induction tr arbitrary: st)
  case Nil
  show ?case by simp
next
  case (Cons e es)
  then have "\<not> is_reaped (waitpid_res e)" and "\<And>s. scripts_while rt es s \<noteq> SysExit n st'"
    by simp_all
  then show ?case
    by (cases "waitpid_res e") (auto split: option.splits sum.splits prod.splits)
qed

lemma root_no_reap:
  "list_all (\<lambda>e. \<not> is_reaped (waitpid_res e)) tr \<Longrightarrow> root_while rt tr st \<noteq> SysExit n st'"
proof (induction tr arbitrary: st)
  case Nil
  show ?case by simp
next
  case (Cons e es)
  then have "\<not> is_reaped (waitpid_res e)" and "\<And>s. root_while rt es s \<noteq> SysExit n st'"
    by simp_all
  then show ?case
    by (cases "waitpid_res e") (auto split: option.splits sum.splits prod.splits)
qed

lemma main_with_no_sysexit:
  assumes "\<And>st n st'. loop tr st \<noteq> SysExit n st'"
    and "\<not> is_uncaught (main_with loop c0 r0 ws0 io0 old tr)"
    and "exit_status (main_with loop c0 r0 ws0 io0 old tr) = Some n"
  shows "n = 0"
proof (cases "set_size io0 c0 r0")
  case (Inl x)
  with assms(2) show ?thesis by (simp add: main_with_def)
next
  case (Inr ws)
  with assms show ?thesis
    by (cases "loop tr (start_state ws (old OR O_NONBLOCK))") (auto simp: main_with_def)
qed

lemma scripts_reap:
  assumes "select_res e \<noteq> None" and "waitpid_res e = Reaped s"
  shows "is_uncaught (scripts_while rt (e # es) st)
         \<or> (\<exists>st'. scripts_while rt (e # es) st = SysExit (waitstatus_to_exitcode s) st')"
  using assms by (auto split: sum.splits prod.splits)

lemma root_reap:
  assumes "select_res e \<noteq> None" and "waitpid_res e = Reaped s"
  shows "is_uncaught (root_while rt (e # es) st)
         \<or> (\<exists>st'. root_while rt (e # es) st = SysExit (waitstatus_to_exitcode s) st')"
  using assms by (auto split: sum.splits prod.splits)

lemma main_with_reap:
  assumes app: "\<And>st. loop (tr @ e # es) st =
                  (case loop tr st of Running st' \<Rightarrow> loop (e # es) st' | out \<Rightarrow> out)"
    and reap: "\<And>st. is_uncaught (loop (e # es) st) \<or> (\<exists>st'. loop (e # es) st = SysExit n st')"
    and run: "exit_status (main_with loop c0 r0 ws0 io0 old tr) = None"
    and nu: "\<not> is_uncaught (main_with loop c0 r0 ws0 io0 old (tr @ e # es))"
    and range: "0 \<le> n" "n \<le> 255"
  shows "exit_status (main_with loop c0 r0 ws0 io0 old (tr @ e # es)) = Some n"
proof -
  from run obtain ws st where ws: "set_size io0 c0 r0 = Inr ws"
    and st: "loop tr (start_state ws (old OR O_NONBLOCK)) = Running st"
    by (rule main_with_running)
  then have m: "main_with loop c0 r0 ws0 io0 old (tr @ e # es) = finally_restore old (loop (e # es) st)"
    by (simp add: main_with_def app)
  with nu have "\<not> is_uncaught (loop (e # es) st)" by (simp add: is_uncaught_finally)
  with reap [of st] obtain st' where "loop (e # es) st = SysExit n st'" by blast
  with m range show ?thesis by simp
qed

section \<open>The claims\<close>

text \<open>
  C10. In both POSIX variants, whichever way \<open>main\<close> ends once the loop has been
  entered or the first \<open>set_size\<close> has failed (the loop falls through after end of file,
  a select error or an I/O error, \<open>sys.exit\<close> after the child's end, an uncaught
  exception), the file-status flags of standard input are again the ones \<open>F_GETFL\<close>
  returned before non-blocking mode was switched on.
\<close>

theorem stdin_flags_restored:
  assumes "out = main_scripts rt c0 r0 ws0 io0 old tr \<or> out = main_root rt c0 r0 ws0 io0 old tr"
    and "exit_status out \<noteq> None"
  shows "stdin_flags (final_state out) = old"
  using assms main_with_flags [of "scripts_while rt" tr c0 r0 ws0 io0 old, OF scripts_while_flags]
    main_with_flags [of "root_while rt" tr c0 r0 ws0 io0 old, OF root_while_flags]
  by (auto simp: main_scripts_def main_root_def)

theorem stdin_flags_restored_witness:
  "exit_status (main_scripts cpython 80 24 ws_zero True 2 [reap_pass (WExited 0)]) \<noteq> None
   \<and> stdin_flags (final_state (main_scripts cpython 80 24 ws_zero True 2 [reap_pass (WExited 0)])) = 2"
proof -
  have live: "exit_status (main_scripts cpython 80 24 ws_zero True 2 [reap_pass (WExited 0)]) \<noteq> None"
    by (simp add: main_scripts_def main_with_def set_size_def pack_HHHH_def reap_pass_def)
  from stdin_flags_restored [OF disjI1 [OF refl] live] live show ?thesis by simp
qed

text \<open>
  C3. The root \<open>terminal_pty.py\<close> does not leave its loop at end of file on standard
  input: an empty read is skipped, and as long as the child runs every further pass
  finds standard input readable and empty again. After any number \<open>n\<close> of such passes the
  helper has not exited.
\<close>

theorem root_variant_spins_on_eof:
  "exit_status (main_root rt 80 24 ws_zero True old (replicate n (stdin_pass []))) = None"
  by (simp add: main_root_def main_with_def set_size_def pack_HHHH_def root_spins_on_eof)

text \<open>
  C8, as the code has it. When the loop of a POSIX variant ends without any \<open>waitpid\<close>
  having reported the child's end and without an uncaught exception (end of file, a
  select error, an I/O error, the child-status race), \<open>main\<close> returns and the helper's
  exit status is 0; the Windows variant reaches \<open>sys.exit(0)\<close> on every way out of its
  loop. The fallback status is 0, not 1.
\<close>

theorem fallback_exit_status_zero:
  "(list_all (\<lambda>e. \<not> is_reaped (waitpid_res e)) tr
      \<and> (out = main_scripts rt c0 r0 ws0 io0 old tr \<or> out = main_root rt c0 r0 ws0 io0 old tr)
      \<and> \<not> is_uncaught out \<and> exit_status out = Some n \<longrightarrow> n = 0)
   \<and> (spawn_ok env \<and> win_main rt env c0 r0 inp = Some (m, wst) \<longrightarrow> m = 0)"
proof (intro conjI impI)
  assume a: "list_all (\<lambda>e. \<not> is_reaped (waitpid_res e)) tr
      \<and> (out = main_scripts rt c0 r0 ws0 io0 old tr \<or> out = main_root rt c0 r0 ws0 io0 old tr)
      \<and> \<not> is_uncaught out \<and> exit_status out = Some n"
  then consider "out = main_scripts rt c0 r0 ws0 io0 old tr" | "out = main_root rt c0 r0 ws0 io0 old tr"
    by blast
  then show "n = 0"
  proof cases
    case 1
    with a scripts_no_reap [of tr rt] show ?thesis
      unfolding main_scripts_def by (intro main_with_no_sysexit [of "scripts_while rt" tr]) auto
  next
    case 2
    with a root_no_reap [of tr rt] show ?thesis
      unfolding main_root_def by (intro main_with_no_sysexit [of "root_while rt" tr]) auto
  qed
next
  assume "spawn_ok env \<and> win_main rt env c0 r0 inp = Some (m, wst)"
  then show "m = 0" by (auto simp: win_main_def)
qed

theorem fallback_exit_status_zero_witness:
  "list_all (\<lambda>e. \<not> is_reaped (waitpid_res e)) [stdin_pass []]
   \<and> \<not> is_uncaught (main_scripts cpython 80 24 ws_zero True 2 [stdin_pass []])
   \<and> exit_status (main_scripts cpython 80 24 ws_zero True 2 [stdin_pass []]) = Some 0
   \<and> spawn_ok (shell_gone 3) \<and> win_main cpython (shell_gone 3) 80 24 [] = Some (0, \<lparr> wsize = (80, 24), w_to_pty = [] \<rparr>)"
proof -
  have a: "list_all (\<lambda>e. \<not> is_reaped (waitpid_res e)) [stdin_pass []]"
    by (simp add: stdin_pass_def)
  have b: "\<not> is_uncaught (main_scripts cpython 80 24 ws_zero True 2 [stdin_pass []])"
    and c: "exit_status (main_scripts cpython 80 24 ws_zero True 2 [stdin_pass []]) = Some 0"
    by (simp_all add: main_scripts_def main_with_def set_size_def pack_HHHH_def stdin_pass_def
        scripts_stdin_def)
  have d: "spawn_ok (shell_gone 3)" by (simp add: shell_gone_def)
  have e: "win_main cpython (shell_gone 3) 80 24 [] = Some (0, \<lparr> wsize = (80, 24), w_to_pty = [] \<rparr>)"
    by (simp add: win_main_def shell_gone_def win_loop.simps)
  from fallback_exit_status_zero [of "[stdin_pass []]"
      "main_scripts cpython 80 24 ws_zero True 2 [stdin_pass []]" cpython 80 24 ws_zero True 2 0
      "shell_gone 3" "[]" 0 "\<lparr> wsize = (80, 24), w_to_pty = [] \<rparr>"]
    a b c d e show ?thesis by simp
qed

text \<open>
  C8 as stated fails: the host closes standard input while the shell runs, the scripts
  variant leaves its loop, and the exit status is 0.
\<close>

theorem fallback_exit_status_counterexample:
  "\<not> is_reaped (waitpid_res (stdin_pass []))
   \<and> exit_status (main_scripts cpython 80 24 ws_zero True 2 [stdin_pass []]) = Some 0
   \<and> exit_status (main_scripts cpython 80 24 ws_zero True 2 [stdin_pass []]) \<noteq> Some 1"
  by (simp add: main_scripts_def main_with_def set_size_def pack_HHHH_def stdin_pass_def
      scripts_stdin_def)

text \<open>
  C7. In the Windows variant a directive cut short by the end of standard input is not
  recovered from: the loop that collects the payload has no test for the empty read, so
  after \<open>ESC ]RESIZE;80\<close> and end of file it never returns, and neither does \<open>main\<close>.
\<close>

theorem windows_truncated_directive_never_returns:
  "win_main rt shell_alive 80 24 (ESC # '']RESIZE;80'') = None"
proof -
  have "read_payload [] '';80'' = None"
    by (rule read_payload_no_BEL) (simp add: BEL_def)
  then show ?thesis
    by (subst win_main_def, subst win_loop.simps) (simp add: shell_alive_def)
qed


text \<open>
  C2, as the code has it. In both POSIX variants, when the loop is still running after
  the passes \<open>tr\<close> and the next pass gets past \<open>select\<close>, raises nothing uncaught and has
  \<open>waitpid\<close> report that the child exited with code \<open>n\<close> (0 to 255), the helper exits
  with status \<open>n\<close>.
\<close>

theorem child_exit_code_relayed:
  assumes "out = main_scripts rt c0 r0 ws0 io0 old (tr @ e # es)
             \<and> exit_status (main_scripts rt c0 r0 ws0 io0 old tr) = None
           \<or> out = main_root rt c0 r0 ws0 io0 old (tr @ e # es)
             \<and> exit_status (main_root rt c0 r0 ws0 io0 old tr) = None"
    and "select_res e \<noteq> None" and "waitpid_res e = Reaped (WExited n)"
    and "0 \<le> n" and "n \<le> 255" and "\<not> is_uncaught out"
  shows "exit_status out = Some n"
  using assms(1)
proof (elim disjE conjE)
  assume o: "out = main_scripts rt c0 r0 ws0 io0 old (tr @ e # es)"
    and r: "exit_status (main_scripts rt c0 r0 ws0 io0 old tr) = None"
  show ?thesis
    unfolding o main_scripts_def
  proof (rule main_with_reap)
    show "scripts_while rt (tr @ e # es) st =
            (case scripts_while rt tr st of Running st' \<Rightarrow> scripts_while rt (e # es) st' | out \<Rightarrow> out)" for st
      by (rule scripts_while_append)
    show "is_uncaught (scripts_while rt (e # es) st) \<or> (\<exists>st'. scripts_while rt (e # es) st = SysExit n st')" for st
      using scripts_reap [OF assms(2,3), of rt es st] by simp
  qed (use assms o r in \<open>simp_all add: main_scripts_def\<close>)
next
  assume o: "out = main_root rt c0 r0 ws0 io0 old (tr @ e # es)"
    and r: "exit_status (main_root rt c0 r0 ws0 io0 old tr) = None"
  show ?thesis
    unfolding o main_root_def
  proof (rule main_with_reap)
    show "root_while rt (tr @ e # es) st =
            (case root_while rt tr st of Running st' \<Rightarrow> root_while rt (e # es) st' | out \<Rightarrow> out)" for st
      by (rule root_while_append)
    show "is_uncaught (root_while rt (e # es) st) \<or> (\<exists>st'. root_while rt (e # es) st = SysExit n st')" for st
      using root_reap [OF assms(2,3), of rt es st] by simp
  qed (use assms o r in \<open>simp_all add: main_root_def\<close>)
qed

theorem child_exit_code_relayed_witness:
  "exit_status (main_scripts cpython 80 24 ws_zero True 2 [stdin_pass ''ls'']) = None
   \<and> select_res (reap_pass (WExited 3)) \<noteq> None
   \<and> waitpid_res (reap_pass (WExited 3)) = Reaped (WExited 3)
   \<and> \<not> is_uncaught (main_scripts cpython 80 24 ws_zero True 2 ([stdin_pass ''ls''] @ reap_pass (WExited 3) # []))
   \<and> exit_status (main_scripts cpython 80 24 ws_zero True 2 ([stdin_pass ''ls''] @ reap_pass (WExited 3) # [])) = Some 3"
proof -
  have a: "exit_status (main_scripts cpython 80 24 ws_zero True 2 [stdin_pass ''ls'']) = None"
    by code_simp
  have b: "select_res (reap_pass (WExited 3)) \<noteq> None"
    and c: "waitpid_res (reap_pass (WExited 3)) = Reaped (WExited 3)"
    by (simp_all add: reap_pass_def)
  have d: "\<not> is_uncaught (main_scripts cpython 80 24 ws_zero True 2 ([stdin_pass ''ls''] @ reap_pass (WExited 3) # []))"
    by code_simp
  from child_exit_code_relayed [OF disjI1 [OF conjI [OF refl a]] b c _ _ d] a b c d
  show ?thesis by simp
qed

text \<open>
  C2 as stated fails on the Windows variant: the shell has exited with code 3, the loop
  condition is false, and the helper exits with status 0.
\<close>

theorem child_exit_code_counterexample:
  "child_exitstatus (shell_gone 3) = Some 3
   \<and> map_option fst (win_main cpython (shell_gone 3) 80 24 []) = Some 0"
  by (simp add: win_main_def shell_gone_def win_loop.simps)








text \<open>
  C6, as the code has it. A directive whose fields hold no separator and no terminator
  and of which one is not a number (\<open>int\<close> raises \<open>ValueError\<close>) changes nothing: both
  POSIX decoders return the data and the size as they were, without an exception, and
  the Windows variant, given a payload that decodes, keeps its size and goes on.
\<close>

theorem non_numeric_resize_is_noop:
  assumes "str_int rt c = None \<or> str_int rt r = None"
    and "CHR '';'' \<notin> set c \<union> set r" and "BEL \<notin> set c \<union> set r"
  shows "(ESC \<notin> set pre \<longrightarrow>
            resize_loop rt ok (pre @ directive c r @ rest) ws = Inr (pre @ directive c r @ rest, ws))
         \<and> resize_once rt ok (directive c r @ rest) ws = Inr (directive c r @ rest, ws)
         \<and> (utf8_ok rt (CHR '';'' # c @ CHR '';'' # r) \<longrightarrow>
            win_apply rt (CHR '';'' # c @ CHR '';'' # r) wst = (Go, wst))"
proof -
  from assms(2) have sc: "CHR '';'' \<notin> set c" "CHR '';'' \<notin> set r" by simp_all
  from assms(3) have nb: "BEL \<notin> set (c @ CHR '';'' # r)" by (simp add: BEL_def)
  have pp: "parse_pair rt (c @ CHR '';'' # r) = None"
    using sc assms(1) by (rule parse_pair_non_numeric)
  have a: "resize_loop rt ok (pre @ INTRO @ (c @ CHR '';'' # r) @ BEL # rest) ws
             = Inr (pre @ INTRO @ (c @ CHR '';'' # r) @ BEL # rest, ws)" if "ESC \<notin> set pre"
    by (simp only: resize_loop_at_directive [OF that nb] pp option.case)
  have b: "resize_once rt ok (INTRO @ (c @ CHR '';'' # r) @ BEL # rest) ws
             = Inr (INTRO @ (c @ CHR '';'' # r) @ BEL # rest, ws)"
    by (simp only: resize_once_directive [OF nb] pp option.case)
  from a b win_apply_non_numeric [OF sc assms(1)] show ?thesis
    by (simp add: directive_def)
qed

theorem non_numeric_resize_is_noop_witness:
  "(str_int cpython ''abc'' = None \<or> str_int cpython ''40'' = None)
   \<and> CHR '';'' \<notin> set ''abc'' \<union> set ''40'' \<and> BEL \<notin> set ''abc'' \<union> set ''40''
   \<and> ESC \<notin> set ''ls'' \<and> utf8_ok cpython (CHR '';'' # ''abc'' @ CHR '';'' # ''40'')
   \<and> resize_loop cpython True (''ls'' @ directive ''abc'' ''40'' @ ''x'') (winsz sess0)
        = Inr (''ls'' @ directive ''abc'' ''40'' @ ''x'', winsz sess0)
   \<and> resize_once cpython True (directive ''abc'' ''40'' @ ''x'') (winsz sess0)
        = Inr (directive ''abc'' ''40'' @ ''x'', winsz sess0)
   \<and> win_apply cpython (CHR '';'' # ''abc'' @ CHR '';'' # ''40'') \<lparr> wsize = (80, 24), w_to_pty = [] \<rparr>
        = (Go, \<lparr> wsize = (80, 24), w_to_pty = [] \<rparr>)"
proof -
  have a: "str_int cpython ''abc'' = None \<or> str_int cpython ''40'' = None"
    by (simp add: cpython_def ascii_int_def strip_space_def is_space_def is_digit_def)
  have b: "CHR '';'' \<notin> set ''abc'' \<union> set ''40''" and c: "BEL \<notin> set ''abc'' \<union> set ''40''"
    and d: "ESC \<notin> set ''ls''"
    by (simp_all add: BEL_def ESC_def)
  have u: "utf8_ok cpython (CHR '';'' # ''abc'' @ CHR '';'' # ''40'')"
    by (simp add: cpython_def)
  from non_numeric_resize_is_noop [OF a b c, of "''ls''" True "''x''" "winsz sess0"
      "\<lparr> wsize = (80, 24), w_to_pty = [] \<rparr>"] a b c d u
  show ?thesis by simp
qed

text \<open>
  C6 as stated fails for values out of range: the directive \<open>RESIZE;0;0\<close> is applied and
  makes the size 0 by 0, and \<open>RESIZE;70000;24\<close> raises \<open>struct.error\<close>, which nothing
  catches, so the helper dies with status 1.
\<close>

theorem out_of_range_resize_counterexample:
  "size_of (winsz sess0) = (80, 24)
   \<and> size_of (winsz (final_state (scripts_while cpython [stdin_pass (directive ''0'' ''0'')] sess0))) = (0, 0)
   \<and> scripts_while cpython [stdin_pass (directive ''70000'' ''24'')] sess0 = Uncaught StructError sess0
   \<and> exit_status (Uncaught StructError sess0) = Some 1"
  by code_simp










end
